theory Spec2Isabelle
  imports Complex_Main
begin

section \<open>Durability engine of mmap_v1 (dur.cpp): data model\<close>

text \<open>
  The model follows one thread through the functions of dur.cpp. Everything the code
  does beyond returning a value is explicit: the globals (commitJob, privateMapBytes,
  the static counters, DurableInterface::_impl) are fields of a state record that is
  passed along, a C++ exception or a process abort is a value of \<open>outcome\<close>, and
  the calls the claims talk about are appended to a trace in the order the code makes them.
  Functions of the source whose name starts with an underscore carry the prefix \<open>x\<close>
  (\<open>x_groupCommit\<close> is _groupCommit).
\<close>

text \<open>
  The classes a C++ handler of dur.cpp can tell apart: DBException (with its code),
  std::ios_base::failure, std::bad_alloc, any other class derived from std::exception,
  and a thrown object of a type that is not derived from std::exception.
\<close>

datatype exn = DBException nat | IosBaseFailure | BadAlloc | StdException | NonStdException

datatype abort = MongoAbort string | InvariantFailed string | FassertFailed nat

datatype 'a outcome = Returned 'a | Threw exn | Aborted abort

text \<open>The three phases declared at the top of dur.cpp and defined elsewhere.\<close>

datatype step = PREPLOGBUFFER | WRITETOJOURNAL | WRITETODATAFILES

datatype event =
    AcquireGlobalRead | ReleaseGlobalRead
  | LockGroupCommitMutex | LockMongoFilesShared
  | CommitingBegin | CommittingNotifyCommitted | CommittingReset
  | Did step | BuilderReset
  | AcquireGlobalWrite | Downgrade | ReleaseGlobalWrite
  | UpgradeToW | RemapSweep nat
  | CheckpointHappened
  | LogLine string

record WriteIntent =
  wi_start :: nat
  wi_length :: nat

record CommitJob =
  intents :: "WriteIntent list"
  commitNumber :: nat
  nWaiting :: nat
  lastNotified :: nat

record MongoFile =
  isDurableMappedFile :: bool
  viewsOpened :: bool
  viewsMatch :: bool
  file_length :: nat
  willNeedRemap :: bool
  remapCount :: nat

datatype impl_kind = durableImpl | nonDurableImpl

record dur_state =
  commitJob :: CommitJob
  threadState :: char
  privateMapBytes :: nat
  files :: "MongoFile list"
  startAt :: nat
  lastRemap :: nat
  n_static :: nat
  ab :: nat
  earlyCommits :: nat
  commitsInWriteLock :: nat
  impl_ptr :: impl_kind
  trace :: "event list"

text \<open>
  What the code reads from outside dur.cpp: the constant UncommittedBytesLimit (dur.h),
  the fields of storageGlobalParams, the clock, whether each of the three external phases
  throws (and what), and the answers of the lock manager that _aCommitIsNeeded asks for.
\<close>

record env =
  UncommittedBytesLimit :: nat
  DurAlwaysRemap :: bool
  DurParanoid :: bool
  journalCommitInterval :: nat
  samePartition :: bool
  throws :: "step \<Rightarrow> exn option"
  curTimeMicros64 :: nat
  lockedLocal :: bool
  lockedAdmin :: bool
  gotUpgrade :: bool

subsection \<open>The commit job and the lock state (dur_commitjob.h and the lock manager)\<close>

text \<open>Modelled from the spec: CommitJob::hasWritten of dur_commitjob.h, which is not
  among the sources: "true iff any intents are currently buffered".\<close>

definition hasWritten :: "CommitJob \<Rightarrow> bool" where
  "hasWritten cj = (intents cj \<noteq> [])"

text \<open>Modelled from the spec: CommitJob::bytes of dur_commitjob.h: "returns total
  buffered byte volume".\<close>

definition bytes :: "CommitJob \<Rightarrow> nat" where
  "bytes cj = sum_list (map wi_length (intents cj))"

text \<open>Modelled from the spec: CommitJob::note of dur_commitjob.h, behind
  declareWriteIntent: "records an intent", overlapping ranges are not coalesced.\<close>

definition declareWriteIntent :: "nat \<Rightarrow> nat \<Rightarrow> CommitJob \<Rightarrow> CommitJob" where
  "declareWriteIntent p len cj =
     cj\<lparr>intents := intents cj @ [\<lparr>wi_start = p, wi_length = len\<rparr>]\<rparr>"

text \<open>Modelled from the spec: CommitJob::commitingBegin of dur_commitjob.h: "begin
  increments the commit epoch and marks a generation boundary".\<close>

definition commitingBegin :: "CommitJob \<Rightarrow> CommitJob" where
  "commitingBegin cj = cj\<lparr>commitNumber := commitNumber cj + 1\<rparr>"

text \<open>Modelled from the spec: CommitJob::committingReset of dur_commitjob.h: "reset
  clears the buffer".\<close>

definition committingReset :: "CommitJob \<Rightarrow> CommitJob" where
  "committingReset cj = cj\<lparr>intents := []\<rparr>"

text \<open>Modelled from the spec: CommitJob::committingNotifyCommitted of dur_commitjob.h:
  "notifyCommitted wakes any thread waiting for journal fsync has happened"; the epoch
  that was acknowledged is kept.\<close>

definition committingNotifyCommitted :: "CommitJob \<Rightarrow> CommitJob" where
  "committingNotifyCommitted cj = cj\<lparr>nWaiting := 0, lastNotified := commitNumber cj\<rparr>"

text \<open>Modelled from the spec: LockState::isLocked, isW and isLockedForCommitting of the
  lock manager, over the thread state character that _aCommitIsNeeded switches on
  (NUL when nothing is held, 'r', 'w', 'R', 'W'); _groupCommit says of the last one
  "We are 'R' or 'W'".\<close>

definition isLocked :: "dur_state \<Rightarrow> bool" where
  "isLocked s = (threadState s \<noteq> CHR 0x00)"

definition isW :: "dur_state \<Rightarrow> bool" where
  "isW s = (threadState s = CHR ''W'')"

definition isLockedForCommitting :: "dur_state \<Rightarrow> bool" where
  "isLockedForCommitting s = (threadState s = CHR ''R'' \<or> threadState s = CHR ''W'')"

subsection \<open>Sequencing\<close>

definition emit :: "event \<Rightarrow> dur_state \<Rightarrow> dur_state" where
  "emit ev s = s\<lparr>trace := trace s @ [ev]\<rparr>"

text \<open>Statements of a C++ function in sequence: an exception or an abort ends it.\<close>

definition andThen :: "'a outcome \<times> dur_state \<Rightarrow> ('a \<Rightarrow> dur_state \<Rightarrow> 'b outcome \<times> dur_state)
    \<Rightarrow> 'b outcome \<times> dur_state" where
  "andThen m f = (case m of
       (Returned a, s) \<Rightarrow> f a s
     | (Threw x, s) \<Rightarrow> (Threw x, s)
     | (Aborted a, s) \<Rightarrow> (Aborted a, s))"

text \<open>The destructor of a scoped lock runs when the scope is left, by a return or by an
  exception that unwinds through it; after an abort nothing runs.\<close>

definition at_scope_exit :: "(dur_state \<Rightarrow> dur_state) \<Rightarrow> 'a outcome \<times> dur_state
    \<Rightarrow> 'a outcome \<times> dur_state" where
  "at_scope_exit d m = (case m of
       (Aborted a, s) \<Rightarrow> (Aborted a, s)
     | (r, s) \<Rightarrow> (r, d s))"

text \<open>A call of one of the three external phases: it throws what the environment says,
  or completes, and its completion is recorded.\<close>

definition call :: "env \<Rightarrow> step \<Rightarrow> dur_state \<Rightarrow> unit outcome \<times> dur_state" where
  "call e st s = (case throws e st of
       Some x \<Rightarrow> (Threw x, s)
     | None \<Rightarrow> (Returned (), emit (Did st) s))"

text \<open>Modelled from the spec: the macro verify of the assertion utilities, which is
  not among the sources; the spec counts an "unexpected internal-consistency violation"
  among the exceptions of a commit cycle, so a failed verify throws (a DBException).\<close>

definition verify :: "bool \<Rightarrow> dur_state \<Rightarrow> unit outcome \<times> dur_state" where
  "verify c s = (if c then (Returned (), s) else (Threw (DBException 0), s))"

text \<open>Modelled from the spec: the macro massert of the assertion utilities: a failed
  massert throws a DBException that carries the code given.\<close>

definition massert :: "nat \<Rightarrow> bool \<Rightarrow> dur_state \<Rightarrow> unit outcome \<times> dur_state" where
  "massert code c s = (if c then (Returned (), s) else (Threw (DBException code), s))"

text \<open>Modelled from the spec: the macro invariant of the assertion utilities: for a
  violation such as "attempting to remap while intents are still buffered" the "process
  terminates immediately after logging".\<close>

definition invariant :: "string \<Rightarrow> bool \<Rightarrow> dur_state \<Rightarrow> unit outcome \<times> dur_state" where
  "invariant msg c s = (if c then (Returned (), s) else (Aborted (InvariantFailed msg), s))"

subsection \<open>The limited-locks commit\<close>

definition acquireGlobalRead :: "dur_state \<Rightarrow> dur_state" where
  "acquireGlobalRead s = emit AcquireGlobalRead (s\<lparr>threadState := CHR ''R''\<rparr>)"

definition releaseGlobalRead :: "dur_state \<Rightarrow> dur_state" where
  "releaseGlobalRead s = emit ReleaseGlobalRead (s\<lparr>threadState := CHR 0x00\<rparr>)"

definition do_commitingBegin :: "dur_state \<Rightarrow> dur_state" where
  "do_commitingBegin s = emit CommitingBegin (s\<lparr>commitJob := commitingBegin (commitJob s)\<rparr>)"

definition do_committingNotifyCommitted :: "dur_state \<Rightarrow> dur_state" where
  "do_committingNotifyCommitted s =
     emit CommittingNotifyCommitted (s\<lparr>commitJob := committingNotifyCommitted (commitJob s)\<rparr>)"

definition do_committingReset :: "dur_state \<Rightarrow> dur_state" where
  "do_committingReset s = emit CommittingReset (s\<lparr>commitJob := committingReset (commitJob s)\<rparr>)"

text \<open>Modelled from the spec: PREPLOGBUFFER, which dur.cpp only declares: it serialises
  "header + all intents' current byte content into the log builder"; the builder then
  holds the buffered bytes. AlignedBuilder::reset truncates the builder to empty.\<close>

definition call_PREPLOGBUFFER :: "env \<Rightarrow> dur_state \<Rightarrow> unit outcome \<times> dur_state" where
  "call_PREPLOGBUFFER e s =
     andThen (call e PREPLOGBUFFER s) (\<lambda>_ s1. (Returned (), s1\<lparr>ab := bytes (commitJob s1)\<rparr>))"

definition ab_reset :: "dur_state \<Rightarrow> dur_state" where
  "ab_reset s = emit BuilderReset (s\<lparr>ab := 0\<rparr>)"

text \<open>
  _groupCommitWithLimitedLocks. The read lock lk1 is released by lk1.reset() before the
  journal write, or by its destructor when the function is left earlier; the mutexes lk2
  and lk3 are held to the end of the function. The DEV verify is compiled in debug builds
  only and is left out.
\<close>

definition x_groupCommitWithLimitedLocks :: "env \<Rightarrow> dur_state \<Rightarrow> bool outcome \<times> dur_state" where
  "x_groupCommitWithLimitedLocks e s =
     andThen (invariant ''!txn->lockState()->isLocked()'' (\<not> isLocked s) s) (\<lambda>_ s.
       let s = acquireGlobalRead s;
           s = emit LockGroupCommitMutex s;
           s = do_commitingBegin s
       in if \<not> hasWritten (commitJob s) then
            (Returned True, releaseGlobalRead (do_committingNotifyCommitted s))
          else
            andThen (at_scope_exit (\<lambda>s. if isLocked s then releaseGlobalRead s else s)
                   (andThen (call_PREPLOGBUFFER e s) (\<lambda>_ s.
                      let s = emit LockMongoFilesShared s;
                          abLen = ab s;
                          s = do_committingReset s;
                          s = releaseGlobalRead s
                      in (Returned abLen, s))))
              (\<lambda>abLen s.
                 andThen (call e WRITETOJOURNAL s) (\<lambda>_ s.
                 andThen (verify (abLen = ab s) s) (\<lambda>_ s.
                   let s = do_committingNotifyCommitted s in
                   andThen (call e WRITETODATAFILES s) (\<lambda>_ s.
                   andThen (verify (abLen = ab s) s) (\<lambda>_ s.
                     (Returned True, ab_reset s)))))))"

text \<open>Modelled from the spec: mongoAbort, which is not among the sources: "the process
  logs a diagnostic and aborts (not a graceful shutdown)".\<close>

definition mongoAbort :: "string \<Rightarrow> dur_state \<Rightarrow> 'a outcome \<times> dur_state" where
  "mongoAbort msg s = (Aborted (MongoAbort msg), s)"

text \<open>
  groupCommitWithLimitedLocks: the four handlers in the order of the source. DBException
  is derived from std::exception, so is every class of the first four constructors of
  \<open>exn\<close>; an object of another type matches no handler and leaves the function.
  The return false after the handlers is reached only if mongoAbort returned.
\<close>

definition groupCommitWithLimitedLocks :: "env \<Rightarrow> dur_state \<Rightarrow> bool outcome \<times> dur_state" where
  "groupCommitWithLimitedLocks e s =
     (case x_groupCommitWithLimitedLocks e s of
        (Threw (DBException c), s1) \<Rightarrow>
          mongoAbort ''dur1''
            (emit (LogLine ''dbexception in groupCommitLL causing immediate shutdown: '') s1)
      | (Threw IosBaseFailure, s1) \<Rightarrow>
          mongoAbort ''dur2''
            (emit (LogLine ''ios_base exception in groupCommitLL causing immediate shutdown: '') s1)
      | (Threw BadAlloc, s1) \<Rightarrow>
          mongoAbort ''dur3''
            (emit (LogLine ''bad_alloc exception in groupCommitLL causing immediate shutdown: '') s1)
      | (Threw StdException, s1) \<Rightarrow>
          mongoAbort ''dur4''
            (emit (LogLine ''exception in dur::groupCommitLL causing immediate shutdown: '') s1)
      | r \<Rightarrow> r)"

subsection \<open>The paranoid check of the views\<close>

text \<open>
  validateSingleMapMatches on one file. A file that is no DurableMappedFile, or whose
  views are not both there yet, is passed over. The length must fit an unsigned (verify).
  When memcmp finds the views equal the file is done; otherwise some byte differs, the
  scan sets low to its offset and massert 13599 fires.
\<close>

definition validateSingleMapMatches :: "MongoFile \<Rightarrow> dur_state \<Rightarrow> unit outcome \<times> dur_state" where
  "validateSingleMapMatches mf s =
     (if isDurableMappedFile mf then
        if \<not> viewsOpened mf then (Returned (), s)
        else andThen (verify (file_length mf < 2 ^ 32) s) (\<lambda>_ s.
               if viewsMatch mf then (Returned (), s)
               else andThen (massert 13599 False
                            (emit (LogLine ''journal error warning views mismatch '') s))
                      (\<lambda>_ s. (Returned (), s)))
      else (Returned (), s))"

fun forEach :: "(MongoFile \<Rightarrow> dur_state \<Rightarrow> unit outcome \<times> dur_state) \<Rightarrow> MongoFile list
    \<Rightarrow> dur_state \<Rightarrow> unit outcome \<times> dur_state" where
  "forEach f [] s = (Returned (), s)"
| "forEach f (mf # mfs) s = andThen (f mf s) (\<lambda>_ s. forEach f mfs s)"

definition debugValidateAllMapsMatch :: "env \<Rightarrow> dur_state \<Rightarrow> unit outcome \<times> dur_state" where
  "debugValidateAllMapsMatch e s =
     (if \<not> DurParanoid e then (Returned (), s)
      else forEach validateSingleMapMatches (files s) s)"

subsection \<open>Remapping the private views\<close>

text \<open>Modelled from the spec: DurableMappedFile::remapThePrivateView, which is not among
  the sources: "collapsing a private view back onto the shared view"; the file then needs
  no remap and its views agree.\<close>

definition remapThePrivateView :: "MongoFile \<Rightarrow> MongoFile" where
  "remapThePrivateView mf =
     mf\<lparr>willNeedRemap := False, viewsMatch := True, remapCount := remapCount mf + 1\<rparr>"

text \<open>The iterator i over the set of files is an index; i++ followed by
  "if (i == e) i = b" wraps it.\<close>

definition next_file :: "nat \<Rightarrow> nat \<Rightarrow> nat" where
  "next_file sz i = (if i + 1 = sz then 0 else i + 1)"

fun skip_to_start :: "nat \<Rightarrow> nat \<Rightarrow> nat \<Rightarrow> nat" where
  "skip_to_start sz 0 i = i"
| "skip_to_start sz (Suc x) i = skip_to_start sz x (next_file sz i)"

text \<open>The second loop of _REMAPPRIVATEVIEW: ntodo rounds; the iterator moves on only
  in a round that finds a DurableMappedFile.\<close>

fun remap_loop :: "nat \<Rightarrow> nat \<Rightarrow> MongoFile list \<Rightarrow> MongoFile list" where
  "remap_loop 0 i fs = fs"
| "remap_loop (Suc x) i fs =
     (if i < length fs \<and> isDurableMappedFile (fs ! i) then
        remap_loop x (next_file (length fs) i)
          (if willNeedRemap (fs ! i) then fs[i := remapThePrivateView (fs ! i)] else fs)
      else remap_loop x i fs)"

text \<open>
  _REMAPPRIVATEVIEW. The two doubles are exact rationals here and the conversion to
  unsigned is the floor; now - lastRemap is a difference of unsigned 64-bit numbers.
  The logging and the timer are left out.
\<close>

definition x_REMAPPRIVATEVIEW :: "env \<Rightarrow> dur_state \<Rightarrow> unit outcome \<times> dur_state" where
  "x_REMAPPRIVATEVIEW e s =
     andThen (invariant ''txn->lockState()->isW()'' (isW s) s) (\<lambda>_ s.
     andThen (invariant ''!commitJob.hasWritten()'' (\<not> hasWritten (commitJob s)) s) (\<lambda>_ s.
       let now = curTimeMicros64 e;
           fraction = (of_int ((int now - int (lastRemap s)) mod 2 ^ 64) / 2000000 :: rat);
           fraction = (if DurAlwaysRemap e then 1 else fraction);
           s = s\<lparr>lastRemap := now\<rparr>;
           sz = length (files s)
       in if sz = 0 then (Returned (), s)
          else
            let f = (of_nat (privateMapBytes s) / of_nat (UncommittedBytesLimit e) :: rat);
                fraction = (if f > fraction then f else fraction);
                s = s\<lparr>privateMapBytes := 0\<rparr>;
                ntodo = nat \<lfloor>of_nat sz * fraction\<rfloor>;
                ntodo = (if ntodo < 1 then 1 else ntodo);
                ntodo = (if ntodo > sz then sz else ntodo);
                i = skip_to_start sz (startAt s) 0;
                s = s\<lparr>startAt := (startAt s + ntodo) mod sz\<rparr>;
                s = s\<lparr>files := remap_loop ntodo i (files s)\<rparr>
            in (Returned (), emit (RemapSweep ntodo) s)))"

definition REMAPPRIVATEVIEW :: "env \<Rightarrow> dur_state \<Rightarrow> unit outcome \<times> dur_state" where
  "REMAPPRIVATEVIEW e s = x_REMAPPRIVATEVIEW e s"

subsection \<open>The full commit\<close>

text \<open>Modelled from the spec: Lock::GlobalWrite::upgrade of the lock manager, which is
  not among the sources: "upgrade to it, then remap", it being the coarsest exclusive
  lock.\<close>

definition upgrade :: "dur_state \<Rightarrow> dur_state" where
  "upgrade s = emit UpgradeToW (s\<lparr>threadState := CHR ''W''\<rparr>)"

text \<open>
  _groupCommit; lgw is true when the pointer is not null. The mutex groupCommitMutex is
  held for the inner block. The DEV verify is compiled in debug builds only and is left
  out, and so is the logging.
\<close>

definition x_groupCommit :: "env \<Rightarrow> bool \<Rightarrow> dur_state \<Rightarrow> unit outcome \<times> dur_state" where
  "x_groupCommit e lgw s =
     andThen (invariant ''txn->lockState()->isLockedForCommitting()'' (isLockedForCommitting s) s)
       (\<lambda>_ s.
     andThen (let s = emit LockGroupCommitMutex s;
               s = do_commitingBegin s
           in if \<not> hasWritten (commitJob s) then
                (Returned (), do_committingNotifyCommitted s)
              else
                andThen (call_PREPLOGBUFFER e s) (\<lambda>_ s.
                andThen (call e WRITETOJOURNAL s) (\<lambda>_ s.
                  let s = do_committingNotifyCommitted s in
                  andThen (call e WRITETODATAFILES s) (\<lambda>_ s.
                  andThen (debugValidateAllMapsMatch e s) (\<lambda>_ s.
                    let s = do_committingReset s
                    in (Returned (), ab_reset s))))))
       (\<lambda>_ s.
        if \<not> isW s then
          if lgw then REMAPPRIVATEVIEW e (upgrade s)
          else (Returned (), s)
        else
          REMAPPRIVATEVIEW e (s\<lparr>commitsInWriteLock := commitsInWriteLock s + 1\<rparr>)))"

definition groupCommit :: "env \<Rightarrow> bool \<Rightarrow> dur_state \<Rightarrow> unit outcome \<times> dur_state" where
  "groupCommit e lgw s =
     (case x_groupCommit e lgw s of
        (Threw (DBException c), s1) \<Rightarrow>
          mongoAbort ''gc1''
            (emit (LogLine ''dbexception in groupCommit causing immediate shutdown: '') s1)
      | (Threw IosBaseFailure, s1) \<Rightarrow>
          mongoAbort ''gc2''
            (emit (LogLine ''ios_base exception in groupCommit causing immediate shutdown: '') s1)
      | (Threw BadAlloc, s1) \<Rightarrow>
          mongoAbort ''gc3''
            (emit (LogLine ''bad_alloc exception in groupCommit causing immediate shutdown: '') s1)
      | (Threw StdException, s1) \<Rightarrow>
          mongoAbort ''gc4''
            (emit (LogLine ''exception in dur::groupCommit causing immediate shutdown: '') s1)
      | r \<Rightarrow> r)"

subsection \<open>Early commits\<close>

text \<open>DurableImpl::commitNow. cc().checkpointHappened() concerns the client object and
  is recorded in the trace only.\<close>

definition commitNow :: "env \<Rightarrow> dur_state \<Rightarrow> bool outcome \<times> dur_state" where
  "commitNow e s =
     andThen (groupCommit e False (s\<lparr>earlyCommits := earlyCommits s + 1\<rparr>)) (\<lambda>_ s.
       (Returned True, emit CheckpointHappened s))"

definition isCommitNeeded :: "env \<Rightarrow> dur_state \<Rightarrow> bool" where
  "isCommitNeeded e s = (bytes (commitJob s) > UncommittedBytesLimit e)"

text \<open>
  DurableImpl::_aCommitIsNeeded, the switch on the thread state. In case NUL the
  read lock r lives to the end of the case. In case 'w' the answers of
  isAtLeastReadLocked on "local" and on "admin" come from the environment, and so does
  whether the upgrade was got. Modelled from the spec: Lock::UpgradeGlobalLockToExclusive
  of the lock manager, which is not among the sources: "attempt to upgrade to exclusive; if
  upgrade succeeds, commit inline"; the upgrade lasts to the end of the case. The LOG
  lines of levels 1 and 2 are left out.
\<close>

definition x_aCommitIsNeeded :: "env \<Rightarrow> dur_state \<Rightarrow> bool outcome \<times> dur_state" where
  "x_aCommitIsNeeded e s =
     (if threadState s = CHR 0x00 then
        at_scope_exit releaseGlobalRead
          (let s = acquireGlobalRead s
           in if bytes (commitJob s) < UncommittedBytesLimit e then (Returned False, s)
              else andThen (commitNow e s) (\<lambda>_ s. (Returned True, s)))
      else if threadState s = CHR ''w'' then
        if lockedLocal e then (Returned False, s)
        else if lockedAdmin e then (Returned False, s)
        else
          at_scope_exit (\<lambda>s. s\<lparr>threadState := CHR ''w''\<rparr>)
            (if gotUpgrade e then
               andThen (commitNow e (s\<lparr>threadState := CHR ''W''\<rparr>)) (\<lambda>_ s. (Returned True, s))
             else (Returned True, s))
      else if threadState s = CHR ''W'' \<or> threadState s = CHR ''R'' then
        andThen (commitNow e s) (\<lambda>_ s. (Returned True, s))
      else if threadState s = CHR ''r'' then (Returned False, s)
      else (Aborted (FassertFailed 16434), s))"

definition commitIfNeeded :: "env \<Rightarrow> bool \<Rightarrow> dur_state \<Rightarrow> bool outcome \<times> dur_state" where
  "commitIfNeeded e force s =
     (let s = emit CheckpointHappened s
      in if bytes (commitJob s) < UncommittedBytesLimit e \<and> \<not> force then (Returned False, s)
         else x_aCommitIsNeeded e s)"

subsection \<open>The journal thread\<close>

text \<open>The tail of durThreadGroupCommit: Lock::GlobalWrite w, w.downgrade(),
  groupCommit(&txn, &w); w is released when the function is left.\<close>

definition fullLockCommit :: "env \<Rightarrow> dur_state \<Rightarrow> unit outcome \<times> dur_state" where
  "fullLockCommit e s =
     at_scope_exit (\<lambda>s. emit ReleaseGlobalWrite (s\<lparr>threadState := CHR 0x00\<rparr>))
       (let s = emit AcquireGlobalWrite (s\<lparr>threadState := CHR ''W''\<rparr>);
            s = emit Downgrade (s\<lparr>threadState := CHR ''R''\<rparr>)
        in groupCommit e True s)"

text \<open>
  durThreadGroupCommit. txn is a new operation context, so nothing is locked at the start.
  The static n is incremented only when the first operand of \<open>&&\<close> is true, and
  N = 10. n is an int in the source and a natural number here: the overflow after
  2^31 rounds is not modelled.
\<close>

definition durThreadGroupCommit :: "env \<Rightarrow> dur_state \<Rightarrow> unit outcome \<times> dur_state" where
  "durThreadGroupCommit e s =
     (let s = s\<lparr>threadState := CHR 0x00\<rparr>
      in if privateMapBytes s < UncommittedBytesLimit e then
           let s = s\<lparr>n_static := n_static s + 1\<rparr>
           in if n_static s mod 10 \<noteq> 0 \<and> \<not> DurAlwaysRemap e then
                andThen (groupCommitWithLimitedLocks e s) (\<lambda>committed s.
                  if committed then (Returned (), s) else fullLockCommit e s)
              else fullLockCommit e s
         else fullLockCommit e s)"




subsection \<open>Switching durability on and off\<close>

definition enableDurability :: "dur_state \<Rightarrow> unit outcome \<times> dur_state" where
  "enableDurability s =
     andThen (verify (impl_ptr s = nonDurableImpl) s) (\<lambda>_ s.
       (Returned (), s\<lparr>impl_ptr := durableImpl\<rparr>))"

definition disableDurability :: "dur_state \<Rightarrow> unit outcome \<times> dur_state" where
  "disableDurability s =
     andThen (verify (impl_ptr s = durableImpl) s) (\<lambda>_ s.
     andThen (massert 13616 (\<not> hasWritten (commitJob s)) s) (\<lambda>_ s.
       (Returned (), s\<lparr>impl_ptr := nonDurableImpl\<rparr>)))"


section \<open>Notions used in the statements\<close>

text \<open>The events a call added to the trace.\<close>

definition new_events :: "dur_state \<Rightarrow> dur_state \<Rightarrow> event list" where
  "new_events s s' = drop (length (trace s)) (trace s')"

text \<open>
  The order of acknowledgement in one commit cycle, read off a trace: the journal write
  completes in phase 0 only, committingNotifyCommitted is called in phase 1 only (after the
  journal write, before the data-file write), and the data-file write completes in phase 2
  only (after the notification).
\<close>

fun ack_order :: "nat \<Rightarrow> event list \<Rightarrow> bool" where
  "ack_order ph [] = True"
| "ack_order ph (ev # evs) =
     (if ev = Did WRITETOJOURNAL then ph = 0 \<and> ack_order 1 evs
      else if ev = CommittingNotifyCommitted then ph = 1 \<and> ack_order 2 evs
      else if ev = Did WRITETODATAFILES then ph = 2 \<and> ack_order 3 evs
      else ack_order ph evs)"

text \<open>\<open>occurs_before a b xs\<close>: a occurs in xs and no b occurs before its first
  occurrence.\<close>

fun occurs_before :: "event \<Rightarrow> event \<Rightarrow> event list \<Rightarrow> bool" where
  "occurs_before a b [] = False"
| "occurs_before a b (x # xs) =
     (if x = a then True else if x = b then False else occurs_before a b xs)"

text \<open>What the paranoid check throws, as a function of the files alone.\<close>

fun first_failure :: "MongoFile list \<Rightarrow> exn option" where
  "first_failure [] = None"
| "first_failure (mf # mfs) =
     (if isDurableMappedFile mf \<and> viewsOpened mf then
        if \<not> file_length mf < 2 ^ 32 then Some (DBException 0)
        else if viewsMatch mf then first_failure mfs
        else Some (DBException 13599)
      else first_failure mfs)"

definition validate_exn :: "env \<Rightarrow> MongoFile list \<Rightarrow> exn option" where
  "validate_exn e fs = (if DurParanoid e then first_failure fs else None)"

definition remapped :: "env \<Rightarrow> dur_state \<Rightarrow> dur_state" where
  "remapped e s = snd (x_REMAPPRIVATEVIEW e s)"

definition remap_events :: "env \<Rightarrow> dur_state \<Rightarrow> event list" where
  "remap_events e s = new_events s (remapped e s)"

text \<open>A commit cycle began during the call: commitingBegin was called.\<close>

definition commit_began :: "dur_state \<Rightarrow> dur_state \<Rightarrow> bool" where
  "commit_began s s' = (CommitingBegin \<in> set (new_events s s'))"



text \<open>One of the two invariants at the top of _REMAPPRIVATEVIEW failed.\<close>

definition remap_tripped :: "'a outcome \<Rightarrow> bool" where
  "remap_tripped r = (r = Aborted (InvariantFailed ''txn->lockState()->isW()'') \<or>
     r = Aborted (InvariantFailed ''!commitJob.hasWritten()''))"




subsection \<open>Concrete inputs\<close>

definition s_idle :: dur_state where
  "s_idle = \<lparr>commitJob = \<lparr>intents = [], commitNumber = 0, nWaiting = 0, lastNotified = 0\<rparr>,
     threadState = CHR 0x00, privateMapBytes = 0, files = [], startAt = 0, lastRemap = 0,
     n_static = 0, ab = 0, earlyCommits = 0, commitsInWriteLock = 0, impl_ptr = durableImpl,
     trace = []\<rparr>"

definition s_written :: dur_state where
  "s_written = s_idle\<lparr>commitJob := declareWriteIntent 4096 100 (commitJob s_idle)\<rparr>"

definition a_file :: MongoFile where
  "a_file = \<lparr>isDurableMappedFile = True, viewsOpened = True, viewsMatch = True,
     file_length = 67108864, willNeedRemap = True, remapCount = 0\<rparr>"

definition e_ok :: env where
  "e_ok = \<lparr>UncommittedBytesLimit = 104857600, DurAlwaysRemap = False, DurParanoid = False,
     journalCommitInterval = 0, samePartition = True, throws = (\<lambda>_. None),
     curTimeMicros64 = 1000000, lockedLocal = False, lockedAdmin = False, gotUpgrade = True\<rparr>"


definition s_remap_no_files :: dur_state where
  "s_remap_no_files = s_idle\<lparr>threadState := CHR ''W'', privateMapBytes := 4096\<rparr>"

definition s_remap_one_file :: dur_state where
  "s_remap_one_file = s_idle\<lparr>threadState := CHR ''W'', privateMapBytes := 4096, files := [a_file]\<rparr>"





section \<open>Auxiliary facts\<close>

lemma forEach_validate:
  "forEach validateSingleMapMatches fs s =
     (case first_failure fs of
        None \<Rightarrow> (Returned (), s)
      | Some x \<Rightarrow> (Threw x, if x = DBException 13599
                      then emit (LogLine ''journal error warning views mismatch '') s else s))"
  by (induction fs) (simp_all add: validateSingleMapMatches_def andThen_def verify_def massert_def)

lemma debugValidate_eq:
  "debugValidateAllMapsMatch e s =
     (case validate_exn e (files s) of
        None \<Rightarrow> (Returned (), s)
      | Some x \<Rightarrow> (Threw x, if x = DBException 13599
                      then emit (LogLine ''journal error warning views mismatch '') s else s))"
  by (simp add: debugValidateAllMapsMatch_def validate_exn_def forEach_validate)

lemma REMAP_eq:
  "isW s \<Longrightarrow> \<not> hasWritten (commitJob s) \<Longrightarrow> REMAPPRIVATEVIEW e s = (Returned (), remapped e s)"
  by (simp add: REMAPPRIVATEVIEW_def remapped_def x_REMAPPRIVATEVIEW_def andThen_def invariant_def Let_def)

lemma remapped_fields:
  "commitJob (remapped e s) = commitJob s"
  "threadState (remapped e s) = threadState s"
  "earlyCommits (remapped e s) = earlyCommits s"
  "commitsInWriteLock (remapped e s) = commitsInWriteLock s"
  "n_static (remapped e s) = n_static s"
  "impl_ptr (remapped e s) = impl_ptr s"
  "ab (remapped e s) = ab s"
  by (simp_all add: remapped_def x_REMAPPRIVATEVIEW_def andThen_def invariant_def Let_def emit_def)

lemma remapped_trace: "trace (remapped e s) = trace s @ remap_events e s"
  by (simp add: remap_events_def new_events_def remapped_def x_REMAPPRIVATEVIEW_def andThen_def
      invariant_def Let_def emit_def)

lemma remap_events_cases: "remap_events e s = [] \<or> (\<exists>n. remap_events e s = [RemapSweep n])"
  by (simp add: remap_events_def new_events_def remapped_def x_REMAPPRIVATEVIEW_def andThen_def
      invariant_def Let_def emit_def)

lemma ack_order_remap_events: "ack_order ph (remap_events e s)"
  using remap_events_cases [of e s] by auto

lemma remap_events_not_in:
  "Did st \<notin> set (remap_events e s)"
  "CommitingBegin \<notin> set (remap_events e s)"
  "CommittingNotifyCommitted \<notin> set (remap_events e s)"
  "CommittingReset \<notin> set (remap_events e s)"
  "AcquireGlobalWrite \<notin> set (remap_events e s)"
  "AcquireGlobalRead \<notin> set (remap_events e s)"
  using remap_events_cases [of e s] by auto

lemma occurs_before_remap_events: "\<not> occurs_before CommittingReset b (remap_events e s)"
  using remap_events_cases [of e s] by (auto split: if_splits)

lemmas step_defs = andThen_def invariant_def at_scope_exit_def call_def call_PREPLOGBUFFER_def
  verify_def acquireGlobalRead_def releaseGlobalRead_def do_commitingBegin_def
  do_committingNotifyCommitted_def do_committingReset_def ab_reset_def emit_def
  mongoAbort_def isLocked_def isW_def isLockedForCommitting_def upgrade_def Let_def
  new_events_def hasWritten_def commitingBegin_def committingReset_def
  committingNotifyCommitted_def

lemmas remap_simps = REMAP_eq remapped_fields remapped_trace ack_order_remap_events
  remap_events_not_in occurs_before_remap_events

lemmas gc_unf = groupCommit_def x_groupCommit_def debugValidate_eq step_defs remap_simps

lemmas ll_unf = groupCommitWithLimitedLocks_def x_groupCommitWithLimitedLocks_def step_defs

lemma commit_paths:
  obtains (prep) a where "throws e PREPLOGBUFFER = Some a"
  | (journal) a where "throws e PREPLOGBUFFER = None" "throws e WRITETOJOURNAL = Some a"
  | (datafiles) a where "throws e PREPLOGBUFFER = None" "throws e WRITETOJOURNAL = None"
      "throws e WRITETODATAFILES = Some a"
  | (validate) a where "throws e PREPLOGBUFFER = None" "throws e WRITETOJOURNAL = None"
      "throws e WRITETODATAFILES = None" "validate_exn e fs = Some a"
  | (ok) "throws e PREPLOGBUFFER = None" "throws e WRITETOJOURNAL = None"
      "throws e WRITETODATAFILES = None" "validate_exn e fs = None"
  by (cases "throws e PREPLOGBUFFER"; cases "throws e WRITETOJOURNAL";
      cases "throws e WRITETODATAFILES"; cases "validate_exn e fs") auto

lemma lock_cases:
  obtains (W) "threadState s = CHR ''W''" | (R) "threadState s = CHR ''R''"
  | (other) "threadState s \<noteq> CHR ''W''" "threadState s \<noteq> CHR ''R''"
  by blast

text \<open>What every run of groupCommit satisfies.\<close>

lemma gc_props:
  assumes "(r, s') = groupCommit e lgw s"
  shows "trace s' = trace s @ new_events s s' \<and>
    (hasWritten (commitJob s) \<longrightarrow> ack_order 0 (new_events s s')) \<and>
    (hasWritten (commitJob s) \<longrightarrow> Did WRITETOJOURNAL \<notin> set (new_events s s') \<longrightarrow>
           nWaiting (commitJob s') = nWaiting (commitJob s)) \<and>
    (hasWritten (commitJob s) \<longrightarrow> r = Returned () \<longrightarrow>
           CommittingNotifyCommitted \<in> set (new_events s s')) \<and>
    (\<not> hasWritten (commitJob s) \<longrightarrow> isLockedForCommitting s \<longrightarrow>
           r = Returned () \<and>
           take 3 (new_events s s') =
             [LockGroupCommitMutex, CommitingBegin, CommittingNotifyCommitted] \<and>
           Did WRITETOJOURNAL \<notin> set (new_events s s') \<and>
           Did WRITETODATAFILES \<notin> set (new_events s s') \<and>
           nWaiting (commitJob s') = 0 \<and> lastNotified (commitJob s') = commitNumber (commitJob s')) \<and>
    \<not> remap_tripped r \<and>
    (isLockedForCommitting s \<longrightarrow> CommitingBegin \<in> set (new_events s s')) \<and>
    \<not> occurs_before CommittingReset (Did WRITETOJOURNAL) (new_events s s') \<and>
    AcquireGlobalWrite \<notin> set (new_events s s') \<and>
    AcquireGlobalRead \<notin> set (new_events s s') \<and>
    n_static s' = n_static s \<and>
    (r = Returned () \<longrightarrow> threadState s' = (if lgw then CHR ''W'' else threadState s)) \<and>
    (\<forall>x. r = Threw x \<longrightarrow> x = NonStdException)"
  using assms
  apply (cases rule: commit_paths [where e=e and fs="files s"];
         cases rule: lock_cases [where s=s]; cases lgw; cases "intents (commitJob s) = []")
  apply (simp_all add: gc_unf remap_tripped_def split: exn.splits)
  done

lemma ll_paths:
  obtains (prep) a where "throws e PREPLOGBUFFER = Some a"
  | (journal) a where "throws e PREPLOGBUFFER = None" "throws e WRITETOJOURNAL = Some a"
  | (datafiles) a where "throws e PREPLOGBUFFER = None" "throws e WRITETOJOURNAL = None"
      "throws e WRITETODATAFILES = Some a"
  | (ok) "throws e PREPLOGBUFFER = None" "throws e WRITETOJOURNAL = None"
      "throws e WRITETODATAFILES = None"
  by (cases "throws e PREPLOGBUFFER"; cases "throws e WRITETOJOURNAL";
      cases "throws e WRITETODATAFILES") auto

text \<open>What every run of groupCommitWithLimitedLocks satisfies.\<close>

lemma ll_props:
  assumes "(r, s') = groupCommitWithLimitedLocks e s"
  shows "trace s' = trace s @ new_events s s' \<and>
    (hasWritten (commitJob s) \<longrightarrow> ack_order 0 (new_events s s')) \<and>
    (hasWritten (commitJob s) \<longrightarrow> Did WRITETOJOURNAL \<notin> set (new_events s s') \<longrightarrow>
           nWaiting (commitJob s') = nWaiting (commitJob s)) \<and>
    (hasWritten (commitJob s) \<longrightarrow> r = Returned True \<longrightarrow>
           CommittingNotifyCommitted \<in> set (new_events s s')) \<and>
    (\<not> hasWritten (commitJob s) \<longrightarrow> threadState s = CHR 0x00 \<longrightarrow>
           r = Returned True \<and>
           new_events s s' =
             [AcquireGlobalRead, LockGroupCommitMutex, CommitingBegin,
              CommittingNotifyCommitted, ReleaseGlobalRead] \<and>
           nWaiting (commitJob s') = 0 \<and> lastNotified (commitJob s') = commitNumber (commitJob s')) \<and>
    \<not> remap_tripped r \<and>
    r \<noteq> Returned False \<and>
    AcquireGlobalWrite \<notin> set (new_events s s') \<and>
    (threadState s = CHR 0x00 \<longrightarrow> AcquireGlobalRead \<in> set (new_events s s')) \<and>
    n_static s' = n_static s \<and>
    (\<forall>x. r = Threw x \<longrightarrow> x = NonStdException)"
  using assms
  apply (cases rule: ll_paths [where e=e]; cases "threadState s = CHR 0x00";
         cases "intents (commitJob s) = []")
  apply (simp_all add: ll_unf remap_tripped_def split: exn.splits)
  done

lemma gc_ok_trace:
  assumes "hasWritten (commitJob s)" and "isLockedForCommitting s"
    and "\<forall>st. throws e st = None" and "validate_exn e (files s) = None"
  shows "fst (groupCommit e lgw s) = Returned () \<and>
    take 8 (new_events s (snd (groupCommit e lgw s))) =
      [LockGroupCommitMutex, CommitingBegin, Did PREPLOGBUFFER, Did WRITETOJOURNAL,
       CommittingNotifyCommitted, Did WRITETODATAFILES, CommittingReset, BuilderReset]"
  using assms
  apply (cases rule: lock_cases [where s=s]; cases lgw)
  apply (simp_all add: gc_unf)
  done

lemma ll_ok_trace:
  assumes "hasWritten (commitJob s)" and "threadState s = CHR 0x00"
    and "\<forall>st. throws e st = None"
  shows "fst (groupCommitWithLimitedLocks e s) = Returned True \<and>
    new_events s (snd (groupCommitWithLimitedLocks e s)) =
      [AcquireGlobalRead, LockGroupCommitMutex, CommitingBegin, Did PREPLOGBUFFER,
       LockMongoFilesShared, CommittingReset, ReleaseGlobalRead, Did WRITETOJOURNAL,
       CommittingNotifyCommitted, Did WRITETODATAFILES, BuilderReset]"
  using assms by (simp add: ll_unf)

lemmas gc_facts = gc_props [OF prod.collapse]
lemmas ll_facts = ll_props [OF prod.collapse]

lemma fst_at_scope_exit: "fst (at_scope_exit d m) = fst m"
  by (cases m; cases "fst m") (auto simp: at_scope_exit_def)

lemma tripped_bind_ret:
  "remap_tripped (fst (andThen m (\<lambda>a s. (Returned (c a), g s)))) = remap_tripped (fst m)"
  by (cases m; cases "fst m") (auto simp: andThen_def remap_tripped_def)

text \<open>What every run of commitNow satisfies.\<close>

lemma commitNow_props:
  assumes "(r, s') = commitNow e s"
  shows "trace s' = trace s @ new_events s s' \<and>
    (isLockedForCommitting s \<longrightarrow> commit_began s s') \<and>
    r \<noteq> Returned False \<and>
    \<not> remap_tripped r \<and>
    (\<forall>x. r = Threw x \<longrightarrow> x = NonStdException) \<and>
    n_static s' = n_static s \<and>
    (r = Returned True \<longrightarrow> threadState s' = threadState s)"
proof -
  define S where "S = s\<lparr>earlyCommits := earlyCommits s + 1\<rparr>"
  define G where "G = groupCommit e False S"
  define xs where "xs = new_events S (snd G)"
  have tS: "trace S = trace s" "isLockedForCommitting S = isLockedForCommitting s"
    "n_static S = n_static s" "threadState S = threadState s"
    by (simp_all add: S_def isLockedForCommitting_def)
  note f = gc_facts [of e False S, folded G_def, folded xs_def]
  have tr: "trace (snd G) = trace s @ xs"
    using f tS by simp
  have rs: "(r, s') = andThen G (\<lambda>_ s. (Returned True, emit CheckpointHappened s))"
    using assms by (simp add: commitNow_def S_def G_def)
  show ?thesis
  proof (cases G)
    case (Pair g s1)
    then show ?thesis
      using rs f tr tS
      by (cases g) (auto simp: andThen_def new_events_def emit_def commit_began_def remap_tripped_def)
  qed
qed

lemmas commitNow_facts = commitNow_props [OF prod.collapse]

lemma x_aCommitIsNeeded_not_tripped: "\<not> remap_tripped (fst (x_aCommitIsNeeded e s))"
  using commitNow_facts [of e "acquireGlobalRead s"] commitNow_facts [of e s]
    commitNow_facts [of e "s\<lparr>threadState := CHR ''W''\<rparr>"]
  by (simp add: x_aCommitIsNeeded_def fst_at_scope_exit tripped_bind_ret Let_def)
     (simp add: remap_tripped_def)

lemma fullLockCommit_not_tripped: "\<not> remap_tripped (fst (fullLockCommit e s))"
  using gc_facts [of e True "emit Downgrade (emit AcquireGlobalWrite (s\<lparr>threadState := CHR ''W''\<rparr>)\<lparr>threadState := CHR ''R''\<rparr>)"]
  by (simp add: fullLockCommit_def fst_at_scope_exit Let_def)

lemma durThreadGroupCommit_not_tripped: "\<not> remap_tripped (fst (durThreadGroupCommit e s))"
proof -
  have "\<not> remap_tripped (fst (andThen (groupCommitWithLimitedLocks e t) (\<lambda>committed s.
          if committed then (Returned (), s) else fullLockCommit e s)))" for t
    using ll_facts [of e t] fullLockCommit_not_tripped
    by (cases "groupCommitWithLimitedLocks e t"; cases "fst (groupCommitWithLimitedLocks e t)")
       (auto simp: andThen_def remap_tripped_def)
  then show ?thesis
    using fullLockCommit_not_tripped by (simp add: durThreadGroupCommit_def Let_def)
qed











section \<open>The claims\<close>

text \<open>
  C1. In a commit cycle that begins with at least one buffered write intent, on the
  limited-locks path and on the full-lock path alike, committingNotifyCommitted is called
  only after WRITETOJOURNAL has completed and before WRITETODATAFILES completes
  (\<open>ack_order\<close>); as long as the journal write has not completed the waiters are
  not released; and a cycle that returns has made the notification.
\<close>

theorem C1_notify_after_journal_before_datafiles:
  assumes "hasWritten (commitJob s)"
  shows "ack_order 0 (new_events s (snd (groupCommitWithLimitedLocks e s))) \<and>
    ack_order 0 (new_events s (snd (groupCommit e lgw s))) \<and>
    (Did WRITETOJOURNAL \<notin> set (new_events s (snd (groupCommitWithLimitedLocks e s))) \<longrightarrow>
       nWaiting (commitJob (snd (groupCommitWithLimitedLocks e s))) = nWaiting (commitJob s)) \<and>
    (Did WRITETOJOURNAL \<notin> set (new_events s (snd (groupCommit e lgw s))) \<longrightarrow>
       nWaiting (commitJob (snd (groupCommit e lgw s))) = nWaiting (commitJob s)) \<and>
    (fst (groupCommitWithLimitedLocks e s) = Returned True \<longrightarrow>
       CommittingNotifyCommitted \<in> set (new_events s (snd (groupCommitWithLimitedLocks e s)))) \<and>
    (fst (groupCommit e lgw s) = Returned () \<longrightarrow>
       CommittingNotifyCommitted \<in> set (new_events s (snd (groupCommit e lgw s))))"
  using assms gc_facts [of e lgw s] ll_facts [of e s] by simp

theorem C1_witness:
  "hasWritten (commitJob s_written) \<and>
   ack_order 0 (new_events s_written (snd (groupCommitWithLimitedLocks e_ok s_written))) \<and>
   ack_order 0 (new_events (s_written\<lparr>threadState := CHR ''R''\<rparr>)
     (snd (groupCommit e_ok True (s_written\<lparr>threadState := CHR ''R''\<rparr>))))"
proof -
  have h: "hasWritten (commitJob s_written)"
    by (simp add: s_written_def s_idle_def declareWriteIntent_def hasWritten_def)
  have h': "hasWritten (commitJob (s_written\<lparr>threadState := CHR ''R''\<rparr>))"
    using h by simp
  show ?thesis
    using h C1_notify_after_journal_before_datafiles [OF h, of e_ok True]
      C1_notify_after_journal_before_datafiles [OF h', of e_ok True]
    by simp
qed

text \<open>
  C2, as the claim states it, fails: on the full-lock path a cycle with one buffered
  intent calls committingReset after the data-file write, not before the journal write.
\<close>

theorem C2_counterexample:
  "new_events (s_written\<lparr>threadState := CHR ''R''\<rparr>)
      (snd (groupCommit e_ok True (s_written\<lparr>threadState := CHR ''R''\<rparr>))) =
    [LockGroupCommitMutex, CommitingBegin, Did PREPLOGBUFFER, Did WRITETOJOURNAL,
     CommittingNotifyCommitted, Did WRITETODATAFILES, CommittingReset, BuilderReset,
     UpgradeToW] \<and>
   \<not> occurs_before CommittingReset (Did WRITETOJOURNAL)
      (new_events (s_written\<lparr>threadState := CHR ''R''\<rparr>)
        (snd (groupCommit e_ok True (s_written\<lparr>threadState := CHR ''R''\<rparr>))))"
  by (simp add: groupCommit_def x_groupCommit_def debugValidateAllMapsMatch_def
      REMAPPRIVATEVIEW_def x_REMAPPRIVATEVIEW_def step_defs s_written_def s_idle_def e_ok_def
      declareWriteIntent_def)

text \<open>
  C2 as amended. On the full-lock path committingReset is never called before the journal
  write of the cycle; a cycle that begins with buffered intents, in which no phase and no
  check fails, performs commitingBegin, PREPLOGBUFFER, WRITETOJOURNAL,
  committingNotifyCommitted, WRITETODATAFILES, committingReset and the reset of the builder
  in this order, so the buffer is cleared after the data-file write. On the limited-locks
  path such a cycle calls committingReset and releases the global read lock before the
  journal write.
\<close>

theorem C2_full_lock_resets_after_datafiles:
  "\<not> occurs_before CommittingReset (Did WRITETOJOURNAL) (new_events s (snd (groupCommit e lgw s))) \<and>
   (hasWritten (commitJob s) \<and> isLockedForCommitting s \<and> (\<forall>st. throws e st = None) \<and>
    fst (debugValidateAllMapsMatch e s) = Returned () \<longrightarrow>
      fst (groupCommit e lgw s) = Returned () \<and>
      take 8 (new_events s (snd (groupCommit e lgw s))) =
        [LockGroupCommitMutex, CommitingBegin, Did PREPLOGBUFFER, Did WRITETOJOURNAL,
         CommittingNotifyCommitted, Did WRITETODATAFILES, CommittingReset, BuilderReset]) \<and>
   (hasWritten (commitJob s) \<and> threadState s = CHR 0x00 \<and> (\<forall>st. throws e st = None) \<longrightarrow>
      fst (groupCommitWithLimitedLocks e s) = Returned True \<and>
      new_events s (snd (groupCommitWithLimitedLocks e s)) =
        [AcquireGlobalRead, LockGroupCommitMutex, CommitingBegin, Did PREPLOGBUFFER,
         LockMongoFilesShared, CommittingReset, ReleaseGlobalRead, Did WRITETOJOURNAL,
         CommittingNotifyCommitted, Did WRITETODATAFILES, BuilderReset])"
proof -
  have v: "fst (debugValidateAllMapsMatch e s) = Returned () \<Longrightarrow> validate_exn e (files s) = None"
    by (simp add: debugValidate_eq split: option.splits)
  have 1: "\<not> occurs_before CommittingReset (Did WRITETOJOURNAL)
      (new_events s (snd (groupCommit e lgw s)))"
    using gc_facts [of e lgw s] by simp
  have 2: "hasWritten (commitJob s) \<and> isLockedForCommitting s \<and> (\<forall>st. throws e st = None) \<and>
    fst (debugValidateAllMapsMatch e s) = Returned () \<longrightarrow>
      fst (groupCommit e lgw s) = Returned () \<and>
      take 8 (new_events s (snd (groupCommit e lgw s))) =
        [LockGroupCommitMutex, CommitingBegin, Did PREPLOGBUFFER, Did WRITETOJOURNAL,
         CommittingNotifyCommitted, Did WRITETODATAFILES, CommittingReset, BuilderReset]"
    using gc_ok_trace [of s e lgw] v by simp
  have 3: "hasWritten (commitJob s) \<and> threadState s = CHR 0x00 \<and> (\<forall>st. throws e st = None) \<longrightarrow>
      fst (groupCommitWithLimitedLocks e s) = Returned True \<and>
      new_events s (snd (groupCommitWithLimitedLocks e s)) =
        [AcquireGlobalRead, LockGroupCommitMutex, CommitingBegin, Did PREPLOGBUFFER,
         LockMongoFilesShared, CommittingReset, ReleaseGlobalRead, Did WRITETOJOURNAL,
         CommittingNotifyCommitted, Did WRITETODATAFILES, BuilderReset]"
    using ll_ok_trace [of s e] by simp
  show ?thesis
    by (rule conjI [OF 1 conjI [OF 2 3]])
qed

theorem C2_witness:
  "hasWritten (commitJob (s_written\<lparr>threadState := CHR ''R''\<rparr>)) \<and>
   isLockedForCommitting (s_written\<lparr>threadState := CHR ''R''\<rparr>) \<and>
   (\<forall>st. throws e_ok st = None) \<and>
   fst (debugValidateAllMapsMatch e_ok (s_written\<lparr>threadState := CHR ''R''\<rparr>)) = Returned () \<and>
   hasWritten (commitJob s_written) \<and> threadState s_written = CHR 0x00 \<and>
   fst (groupCommit e_ok False (s_written\<lparr>threadState := CHR ''R''\<rparr>)) = Returned () \<and>
   fst (groupCommitWithLimitedLocks e_ok s_written) = Returned True"
  using C2_full_lock_resets_after_datafiles [of "s_written\<lparr>threadState := CHR ''R''\<rparr>" e_ok False]
    C2_full_lock_resets_after_datafiles [of s_written e_ok False]
  by (simp add: s_written_def s_idle_def e_ok_def declareWriteIntent_def hasWritten_def
      isLockedForCommitting_def debugValidateAllMapsMatch_def)

text \<open>
  C3. A commit cycle that begins with no buffered write intent calls
  committingNotifyCommitted and returns success without a journal write or a data-file
  write, on the limited-locks path (entered with nothing locked) and on the full-lock path
  (entered in 'R' or 'W'); afterwards no thread is left waiting and the epoch of the cycle
  is acknowledged.
\<close>

theorem C3_noop_commit:
  assumes "\<not> hasWritten (commitJob s)"
  shows "(threadState s = CHR 0x00 \<longrightarrow>
      fst (groupCommitWithLimitedLocks e s) = Returned True \<and>
      new_events s (snd (groupCommitWithLimitedLocks e s)) =
        [AcquireGlobalRead, LockGroupCommitMutex, CommitingBegin, CommittingNotifyCommitted,
         ReleaseGlobalRead] \<and>
      nWaiting (commitJob (snd (groupCommitWithLimitedLocks e s))) = 0 \<and>
      lastNotified (commitJob (snd (groupCommitWithLimitedLocks e s))) =
        commitNumber (commitJob (snd (groupCommitWithLimitedLocks e s)))) \<and>
    (isLockedForCommitting s \<longrightarrow>
      fst (groupCommit e lgw s) = Returned () \<and>
      take 3 (new_events s (snd (groupCommit e lgw s))) =
        [LockGroupCommitMutex, CommitingBegin, CommittingNotifyCommitted] \<and>
      Did WRITETOJOURNAL \<notin> set (new_events s (snd (groupCommit e lgw s))) \<and>
      Did WRITETODATAFILES \<notin> set (new_events s (snd (groupCommit e lgw s))) \<and>
      nWaiting (commitJob (snd (groupCommit e lgw s))) = 0 \<and>
      lastNotified (commitJob (snd (groupCommit e lgw s))) =
        commitNumber (commitJob (snd (groupCommit e lgw s))))"
  using assms gc_facts [of e lgw s] ll_facts [of e s] by simp

theorem C3_witness:
  "\<not> hasWritten (commitJob s_idle) \<and> threadState s_idle = CHR 0x00 \<and>
   isLockedForCommitting (s_idle\<lparr>threadState := CHR ''W''\<rparr>) \<and>
   fst (groupCommitWithLimitedLocks e_ok s_idle) = Returned True \<and>
   fst (groupCommit e_ok False (s_idle\<lparr>threadState := CHR ''W''\<rparr>)) = Returned ()"
proof -
  have h: "\<not> hasWritten (commitJob s_idle)"
    by (simp add: s_idle_def hasWritten_def)
  have h': "\<not> hasWritten (commitJob (s_idle\<lparr>threadState := CHR ''W''\<rparr>))"
    using h by simp
  show ?thesis
    using h C3_noop_commit [OF h, of e_ok False] C3_noop_commit [OF h', of e_ok False]
    by (simp add: s_idle_def isLockedForCommitting_def)
qed

text \<open>
  C4. The remap routine does nothing unless the thread holds 'W' and no write intent is
  buffered: otherwise one of its two invariants stops the process with the state as it
  was. On every path that reaches the routine (through groupCommit, and so through
  commitNow, commitIfNeeded and durThreadGroupCommit) neither invariant trips.
\<close>

theorem C4_remap_preconditions_hold:
  "(\<not> (isW s \<and> \<not> hasWritten (commitJob s)) \<longrightarrow>
      (\<exists>m. x_REMAPPRIVATEVIEW e s = (Aborted (InvariantFailed m), s))) \<and>
   \<not> remap_tripped (fst (groupCommit e lgw s)) \<and>
   \<not> remap_tripped (fst (groupCommitWithLimitedLocks e s)) \<and>
   \<not> remap_tripped (fst (commitNow e s)) \<and>
   \<not> remap_tripped (fst (commitIfNeeded e force s)) \<and>
   \<not> remap_tripped (fst (durThreadGroupCommit e s))"
proof -
  have 1: "\<not> (isW s \<and> \<not> hasWritten (commitJob s)) \<longrightarrow>
      (\<exists>m. x_REMAPPRIVATEVIEW e s = (Aborted (InvariantFailed m), s))"
    by (simp add: x_REMAPPRIVATEVIEW_def andThen_def invariant_def)
  have 2: "\<not> remap_tripped (fst (commitIfNeeded e force s))"
    using x_aCommitIsNeeded_not_tripped
    by (simp add: commitIfNeeded_def Let_def) (simp add: remap_tripped_def)
  show ?thesis
    using 1 2 gc_facts [of e lgw s] ll_facts [of e s] commitNow_facts [of e s]
      durThreadGroupCommit_not_tripped [of e s]
    by simp
qed

theorem C4_witness:
  "\<not> (isW s_written \<and> \<not> hasWritten (commitJob s_written)) \<and>
   (\<exists>m. x_REMAPPRIVATEVIEW e_ok s_written = (Aborted (InvariantFailed m), s_written)) \<and>
   \<not> remap_tripped (fst (durThreadGroupCommit e_ok s_written))"
  using C4_remap_preconditions_hold [of s_written e_ok True True]
  by (simp add: s_written_def s_idle_def isW_def)











text \<open>
  C9, as the claim states it, fails: when no file is mapped the remap routine returns
  before it resets privateMapBytes, so the counter keeps its value; this is also what
  happens in a round of the journal thread that takes the full-lock path.
\<close>

theorem C9_counterexample:
  "x_REMAPPRIVATEVIEW e_ok s_remap_no_files =
     (Returned (), s_remap_no_files\<lparr>lastRemap := 1000000\<rparr>) \<and>
   privateMapBytes (snd (x_REMAPPRIVATEVIEW e_ok s_remap_no_files)) = 4096 \<and>
   fst (durThreadGroupCommit e_ok (s_idle\<lparr>privateMapBytes := 104857600\<rparr>)) = Returned () \<and>
   privateMapBytes (snd (durThreadGroupCommit e_ok (s_idle\<lparr>privateMapBytes := 104857600\<rparr>)))
     = 104857600"
  by (simp add: x_REMAPPRIVATEVIEW_def durThreadGroupCommit_def fullLockCommit_def
      groupCommit_def x_groupCommit_def REMAPPRIVATEVIEW_def step_defs s_remap_no_files_def
      s_idle_def e_ok_def)

text \<open>
  C9 as amended. A call of the remap routine whose preconditions hold returns, and
  afterwards privateMapBytes is zero if at least one file is mapped; if no file is mapped
  the routine returns early and leaves privateMapBytes as it was.
\<close>

theorem C9_counter_reset_when_files_mapped:
  assumes "isW s" and "\<not> hasWritten (commitJob s)"
  shows "fst (REMAPPRIVATEVIEW e s) = Returned () \<and>
    privateMapBytes (snd (REMAPPRIVATEVIEW e s)) = (if files s = [] then privateMapBytes s else 0)"
  using assms
  by (simp add: REMAPPRIVATEVIEW_def x_REMAPPRIVATEVIEW_def andThen_def invariant_def Let_def emit_def)

theorem C9_witness:
  "isW s_remap_one_file \<and> \<not> hasWritten (commitJob s_remap_one_file) \<and>
   fst (REMAPPRIVATEVIEW e_ok s_remap_one_file) = Returned () \<and>
   privateMapBytes (snd (REMAPPRIVATEVIEW e_ok s_remap_one_file)) = 0"
proof -
  have h1: "isW s_remap_one_file"
    by (simp add: s_remap_one_file_def s_idle_def isW_def)
  have h2: "\<not> hasWritten (commitJob s_remap_one_file)"
    by (simp add: s_remap_one_file_def s_idle_def hasWritten_def)
  have h3: "files s_remap_one_file \<noteq> []"
    by (simp add: s_remap_one_file_def)
  show ?thesis
    using h1 h2 h3 C9_counter_reset_when_files_mapped [OF h1 h2, of e_ok] by simp
qed

text \<open>
  C10. While the durable implementation is installed, disableDurability fails with
  massert 13616 and leaves it installed whenever write intents are buffered, and installs
  the non-durable implementation when none is; it returns only in the latter case.
  enableDurability returns, installing the durable implementation, exactly when the
  non-durable one is installed; called with the wrong implementation installed either
  function fails in its verify and changes nothing.
\<close>

theorem C10_disableDurability:
  "(impl_ptr s = durableImpl \<and> hasWritten (commitJob s) \<longrightarrow>
      disableDurability s = (Threw (DBException 13616), s)) \<and>
   (impl_ptr s = durableImpl \<and> \<not> hasWritten (commitJob s) \<longrightarrow>
      disableDurability s = (Returned (), s\<lparr>impl_ptr := nonDurableImpl\<rparr>)) \<and>
   (fst (disableDurability s) = Returned () \<longrightarrow>
      impl_ptr s = durableImpl \<and> \<not> hasWritten (commitJob s) \<and>
      impl_ptr (snd (disableDurability s)) = nonDurableImpl) \<and>
   (impl_ptr s \<noteq> durableImpl \<longrightarrow> disableDurability s = (Threw (DBException 0), s)) \<and>
   (impl_ptr s = nonDurableImpl \<longrightarrow>
      enableDurability s = (Returned (), s\<lparr>impl_ptr := durableImpl\<rparr>)) \<and>
   (impl_ptr s \<noteq> nonDurableImpl \<longrightarrow> enableDurability s = (Threw (DBException 0), s))"
  by (simp add: disableDurability_def enableDurability_def andThen_def verify_def massert_def)

theorem C10_witness:
  "impl_ptr s_written = durableImpl \<and> hasWritten (commitJob s_written) \<and>
   disableDurability s_written = (Threw (DBException 13616), s_written) \<and>
   impl_ptr s_idle = durableImpl \<and> \<not> hasWritten (commitJob s_idle) \<and>
   disableDurability s_idle = (Returned (), s_idle\<lparr>impl_ptr := nonDurableImpl\<rparr>) \<and>
   enableDurability (s_idle\<lparr>impl_ptr := nonDurableImpl\<rparr>) = (Returned (), s_idle) \<and>
   enableDurability s_idle = (Threw (DBException 0), s_idle)"
  using C10_disableDurability [of s_written] C10_disableDurability [of s_idle]
    C10_disableDurability [of "s_idle\<lparr>impl_ptr := nonDurableImpl\<rparr>"]
  by (simp add: s_written_def s_idle_def hasWritten_def declareWriteIntent_def)

end
